theory Spec2Isabelle
  imports Complex_Main "HOL-Library.Char_ord" "HOL-Library.List_Lexorder" "HOL-Library.Multiset"
begin

section \<open>JSON values and book records\<close>

text \<open>
  Request bodies and stored records are JSON objects. A JSON number is modelled as a
  rational, a string as a list of 8-bit characters ordered by character code (the source
  compares UTF-16 code units). A top-level object is a finite map from property names to
  values: a property whose value is \<open>undefined\<close> in the source is an absent key here,
  which is how \<open>JSON.stringify\<close> and the validator treat it.
\<close>

datatype json =
    JNull
  | JBool bool
  | JNum rat
  | JStr string
  | JArr "json list"
  | JObj "(string \<times> json) list"

type_synonym book = "string \<rightharpoonup> json"

text \<open>JavaScript truthiness of a property read, and the operator \<open>a || b\<close>.\<close>

fun truthy :: "json option \<Rightarrow> bool" where
  "truthy None = False"
| "truthy (Some JNull) = False"
| "truthy (Some (JBool b)) = b"
| "truthy (Some (JNum r)) = (r \<noteq> 0)"
| "truthy (Some (JStr s)) = (s \<noteq> [])"
| "truthy (Some (JArr xs)) = True"
| "truthy (Some (JObj kvs)) = True"

definition js_or :: "json option \<Rightarrow> json option \<Rightarrow> json option" where
  "js_or a b = (if truthy a then a else b)"

section \<open>String operations of the source\<close>

text \<open>
  \<open>toLowerCase\<close>, \<open>toUpperCase\<close> and \<open>trim\<close> on ASCII: letters are mapped by table,
  every other character is left as it is; \<open>trim\<close> removes space, tab, line feed,
  vertical tab, form feed and carriage return from both ends.
\<close>

definition lower_letters :: string where
  "lower_letters = ''abcdefghijklmnopqrstuvwxyz''"

definition upper_letters :: string where
  "upper_letters = ''ABCDEFGHIJKLMNOPQRSTUVWXYZ''"

definition lower_char :: "char \<Rightarrow> char" where
  "lower_char c = (case map_of (zip upper_letters lower_letters) c of Some d \<Rightarrow> d | None \<Rightarrow> c)"

definition upper_char :: "char \<Rightarrow> char" where
  "upper_char c = (case map_of (zip lower_letters upper_letters) c of Some d \<Rightarrow> d | None \<Rightarrow> c)"

definition toLowerCase :: "string \<Rightarrow> string" where
  "toLowerCase s = map lower_char s"

definition toUpperCase :: "string \<Rightarrow> string" where
  "toUpperCase s = map upper_char s"

definition is_space :: "char \<Rightarrow> bool" where
  "is_space c = (c \<in> set [CHR '' '', CHR 0x09, CHR 0x0A, CHR 0x0B, CHR 0x0C, CHR 0x0D])"

definition trim :: "string \<Rightarrow> string" where
  "trim s = rev (dropWhile is_space (rev (dropWhile is_space s)))"

fun starts_with :: "string \<Rightarrow> string \<Rightarrow> bool" where
  "starts_with s [] = True"
| "starts_with [] (c # cs) = False"
| "starts_with (d # ds) (c # cs) = (d = c \<and> starts_with ds cs)"

text \<open>\<open>hay.includes(needle)\<close>: the needle occurs as a contiguous substring.\<close>

fun str_includes :: "string \<Rightarrow> string \<Rightarrow> bool" where
  "str_includes [] needle = (needle = [])"
| "str_includes (c # cs) needle = (starts_with (c # cs) needle \<or> str_includes cs needle)"

text \<open>\<open>xs.join(' ')\<close>.\<close>

fun join_space :: "string list \<Rightarrow> string" where
  "join_space [] = []"
| "join_space [x] = x"
| "join_space (x # y # ys) = x @ '' '' @ join_space (y # ys)"

section \<open>Validators (src/validators.js)\<close>

text \<open>
  The three string formats come from the \<open>ajv-formats\<close> package, which is not part of
  the repository: they are parameters of the model.
\<close>

record formats =
  fmt_date :: "string \<Rightarrow> bool"
  fmt_date_time :: "string \<Rightarrow> bool"
  fmt_uri :: "string \<Rightarrow> bool"

datatype format = FDate | FDateTime | FUri

datatype pattern = Isbn10 | Isbn13

text \<open>
  The property schemas that \<open>bookSchema\<close> uses: \<open>StringS n\<close> is
  \<open>{type: 'string', minLength: n}\<close> (\<open>n = 0\<close> when the keyword is absent),
  \<open>NumberS lo\<close> is \<open>{type: 'number', minimum: lo}\<close>, \<open>IntegerS lo hi\<close> is
  \<open>{type: 'integer', minimum: lo, maximum: hi}\<close>, \<open>ArrayS e\<close> is
  \<open>{type: 'array', items: e}\<close>. The keywords \<open>default\<close>, \<open>readOnly\<close> and
  \<open>description\<close> do not take part in validation (the validator is built without
  \<open>useDefaults\<close>).
\<close>

datatype schema =
    StringS nat
  | FormatS format
  | PatternS pattern
  | EnumS "string list"
  | NumberS rat
  | IntegerS rat rat
  | ArrayS schema

definition is_digit :: "char \<Rightarrow> bool" where
  "is_digit c = (c \<in> set ''0123456789'')"

text \<open>\<open>^[0-9Xx-]{10,}$\<close>\<close>

definition isbn10_pattern :: "string \<Rightarrow> bool" where
  "isbn10_pattern s =
     (10 \<le> length s \<and> list_all (\<lambda>c. is_digit c \<or> c = CHR ''X'' \<or> c = CHR ''x'' \<or> c = CHR ''-'') s)"

text \<open>\<open>[0-9-]{10,}$\<close>, anchored at the start of its argument.\<close>

definition digits_hyphens10 :: "string \<Rightarrow> bool" where
  "digits_hyphens10 s = (10 \<le> length s \<and> list_all (\<lambda>c. is_digit c \<or> c = CHR ''-'') s)"

text \<open>\<open>^(97(8|9))?[0-9-]{10,}$\<close>\<close>

definition isbn13_pattern :: "string \<Rightarrow> bool" where
  "isbn13_pattern s =
     (digits_hyphens10 s \<or>
      ((starts_with s ''978'' \<or> starts_with s ''979'') \<and> digits_hyphens10 (drop 3 s)))"

fun format_ok :: "formats \<Rightarrow> format \<Rightarrow> string \<Rightarrow> bool" where
  "format_ok F FDate s = fmt_date F s"
| "format_ok F FDateTime s = fmt_date_time F s"
| "format_ok F FUri s = fmt_uri F s"

fun pattern_ok :: "pattern \<Rightarrow> string \<Rightarrow> bool" where
  "pattern_ok Isbn10 s = isbn10_pattern s"
| "pattern_ok Isbn13 s = isbn13_pattern s"

fun check :: "formats \<Rightarrow> schema \<Rightarrow> json \<Rightarrow> bool" where
  "check F (StringS n) v = (case v of JStr s \<Rightarrow> n \<le> length s | _ \<Rightarrow> False)"
| "check F (FormatS f) v = (case v of JStr s \<Rightarrow> format_ok F f s | _ \<Rightarrow> False)"
| "check F (PatternS p) v = (case v of JStr s \<Rightarrow> pattern_ok p s | _ \<Rightarrow> False)"
| "check F (EnumS vs) v = (case v of JStr s \<Rightarrow> s \<in> set vs | _ \<Rightarrow> False)"
| "check F (NumberS lo) v = (case v of JNum r \<Rightarrow> lo \<le> r | _ \<Rightarrow> False)"
| "check F (IntegerS lo hi) v =
     (case v of JNum r \<Rightarrow> of_int \<lfloor>r\<rfloor> = r \<and> lo \<le> r \<and> r \<le> hi | _ \<Rightarrow> False)"
| "check F (ArrayS e) v = (case v of JArr xs \<Rightarrow> list_all (\<lambda>x. check F e x) xs | _ \<Rightarrow> False)"

record object_schema =
  properties :: "(string \<times> schema) list"
  required :: "string list"

definition bookSchema :: object_schema where
  "bookSchema = \<lparr>
     properties = [
       (''id'', StringS 0),
       (''title'', StringS 1),
       (''subtitle'', StringS 0),
       (''authors'', ArrayS (StringS 1)),
       (''publisher'', StringS 0),
       (''publicationDate'', FormatS FDate),
       (''isbn10'', PatternS Isbn10),
       (''isbn13'', PatternS Isbn13),
       (''edition'', StringS 0),
       (''format'', EnumS [''Hardcover'', ''Paperback'', ''eBook'', ''Audiobook'', ''Other'']),
       (''purchaseDate'', FormatS FDate),
       (''pricePaid'', NumberS 0),
       (''currency'', StringS 1),
       (''condition'', EnumS [''New'', ''Like New'', ''Very Good'', ''Good'', ''Acceptable'', ''Poor'']),
       (''location'', StringS 0),
       (''tags'', ArrayS (StringS 1)),
       (''notes'', StringS 0),
       (''readStatus'', EnumS [''Unread'', ''Reading'', ''Finished'', ''Abandoned'']),
       (''rating'', IntegerS 1 5),
       (''coverUrl'', FormatS FUri),
       (''createdAt'', FormatS FDateTime),
       (''updatedAt'', FormatS FDateTime)],
     required = [''title''] \<rparr>"

text \<open>
  \<open>partialBookSchema\<close>: the same properties with \<open>id\<close>, \<open>createdAt\<close> and
  \<open>updatedAt\<close> deleted, and nothing required.
\<close>

definition partialBookSchema :: object_schema where
  "partialBookSchema = \<lparr>
     properties = filter (\<lambda>(k, p). k \<noteq> ''id'' \<and> k \<noteq> ''createdAt'' \<and> k \<noteq> ''updatedAt'')
                    (properties bookSchema),
     required = [] \<rparr>"

text \<open>
  \<open>compile(schema)\<close> with the options of the source,
  \<open>{allErrors: true, removeAdditional: 'failing'}\<close>, on a schema that has
  \<open>additionalProperties: false\<close>: the validator deletes from its argument every
  property the schema does not name (it mutates the object, and does so whether or not
  the rest is valid) and reports whether the required properties are present and every
  named property that is present satisfies its schema. The result is the verdict and
  the object as the validator leaves it.
\<close>

definition field_ok :: "formats \<Rightarrow> book \<Rightarrow> string \<times> schema \<Rightarrow> bool" where
  "field_ok F data kp = (case data (fst kp) of None \<Rightarrow> True | Some v \<Rightarrow> check F (snd kp) v)"

definition compile :: "formats \<Rightarrow> object_schema \<Rightarrow> book \<Rightarrow> bool \<times> book" where
  "compile F sch data =
     (let data' = data |` set (map fst (properties sch))
      in (list_all (\<lambda>k. data' k \<noteq> None) (required sch) \<and>
          list_all (field_ok F data') (properties sch), data'))"

definition validateNewBook :: "formats \<Rightarrow> book \<Rightarrow> bool \<times> book" where
  "validateNewBook F = compile F bookSchema"

definition validatePatchBook :: "formats \<Rightarrow> book \<Rightarrow> bool \<times> book" where
  "validatePatchBook F = compile F partialBookSchema"

section \<open>The store (src/store.js)\<close>

text \<open>
  The in-memory document \<open>{books: [...]}\<close> and the number of flushes that have been put
  on the write queue. Reads of a record's fields in \<open>list\<close> and in the ISBN key are
  modelled for records whose fields have the JSON types of \<open>bookSchema\<close> (a string or
  absent; an array of strings or absent), which holds of every record a handler stores;
  on other values the source coerces or throws, and the model reads the field as absent.
\<close>

record store =
  books :: "book list"
  flushes :: nat

definition empty_store :: store where
  "empty_store = \<lparr>books = [], flushes = 0\<rparr>"

definition enqueueWrite :: "store \<Rightarrow> store" where
  "enqueueWrite s = s\<lparr>flushes := Suc (flushes s)\<rparr>"

definition str_field :: "book \<Rightarrow> string \<Rightarrow> string list" where
  "str_field b k = (case b k of Some (JStr s) \<Rightarrow> [s] | _ \<Rightarrow> [])"

definition arr_field :: "book \<Rightarrow> string \<Rightarrow> string list" where
  "arr_field b k =
     (case b k of
        Some (JArr xs) \<Rightarrow> concat (map (\<lambda>x. case x of JStr s \<Rightarrow> [s] | _ \<Rightarrow> []) xs)
      | _ \<Rightarrow> [])"

text \<open>
  \<open>[b.title, b.subtitle, b.publisher, b.notes, ...(b.authors || []), ...(b.tags || [])]
  .filter(Boolean).join(' ').toLowerCase()\<close>
\<close>

definition hay :: "book \<Rightarrow> string" where
  "hay b =
     toLowerCase (join_space (filter (\<lambda>x. x \<noteq> [])
       (str_field b ''title'' @ str_field b ''subtitle'' @ str_field b ''publisher'' @
        str_field b ''notes'' @ arr_field b ''authors'' @ arr_field b ''tags'')))"

record list_query =
  q :: "string option"
  author :: "string option"
  tag :: "string option"
  beforePurchaseDate :: "string option"
  afterPurchaseDate :: "string option"
  sort_param :: "string option"
  limit :: nat
  offset :: nat

record list_result =
  total :: nat
  items :: "book list"

text \<open>\<open>a[field] ?? ''\<close> on a string field.\<close>

definition sort_value :: "string \<Rightarrow> book \<Rightarrow> string" where
  "sort_value field b = (case b field of Some (JStr s) \<Rightarrow> s | _ \<Rightarrow> [])"

definition compare :: "string \<Rightarrow> bool \<Rightarrow> book \<Rightarrow> book \<Rightarrow> int" where
  "compare field asc a b =
     (let av = sort_value field a; bv = sort_value field b
      in if av < bv then (if asc then - 1 else 1)
         else if bv < av then (if asc then 1 else - 1)
         else 0)"

definition sortMap :: "string \<rightharpoonup> (book \<Rightarrow> book \<Rightarrow> int)" where
  "sortMap = map_of [
     (''title'', compare ''title'' True),
     (''-title'', compare ''title'' False),
     (''purchaseDate'', compare ''purchaseDate'' True),
     (''-purchaseDate'', compare ''purchaseDate'' False),
     (''createdAt'', compare ''createdAt'' True),
     (''-createdAt'', compare ''createdAt'' False),
     (''updatedAt'', compare ''updatedAt'' True),
     (''-updatedAt'', compare ''updatedAt'' False)]"

text \<open>\<open>sortMap[sort] || sortMap.title\<close>\<close>

definition comparator :: "string option \<Rightarrow> book \<Rightarrow> book \<Rightarrow> int" where
  "comparator srt =
     (case srt of
        None \<Rightarrow> compare ''title'' True
      | Some k \<Rightarrow> (case sortMap k of Some c \<Rightarrow> c | None \<Rightarrow> compare ''title'' True))"

text \<open>
  \<open>rows.sort(cmp)\<close> is a stable sort (Node 18): an element goes before the first element
  that does not compare below it, and equal elements keep their order.
\<close>

fun insort_cmp :: "('a \<Rightarrow> 'a \<Rightarrow> int) \<Rightarrow> 'a \<Rightarrow> 'a list \<Rightarrow> 'a list" where
  "insort_cmp cmp x [] = [x]"
| "insort_cmp cmp x (y # ys) = (if cmp x y \<le> 0 then x # y # ys else y # insort_cmp cmp x ys)"

definition sort_rows :: "('a \<Rightarrow> 'a \<Rightarrow> int) \<Rightarrow> 'a list \<Rightarrow> 'a list" where
  "sort_rows cmp xs = foldr (insort_cmp cmp) xs []"

definition purchased :: "book \<Rightarrow> string option" where
  "purchased b = (case b ''purchaseDate'' of Some (JStr d) \<Rightarrow> (if d = [] then None else Some d) | _ \<Rightarrow> None)"

definition list_books :: "list_query \<Rightarrow> store \<Rightarrow> list_result" where
  "list_books p s =
     (let rows = books s;
          rows = (case q p of
                    None \<Rightarrow> rows
                  | Some qs \<Rightarrow>
                      if trim qs = [] then rows
                      else filter (\<lambda>b. str_includes (hay b) (toLowerCase (trim qs))) rows);
          rows = (case author p of
                    None \<Rightarrow> rows
                  | Some au \<Rightarrow>
                      if trim au = [] then rows
                      else filter (\<lambda>b. list_ex (\<lambda>x. str_includes (toLowerCase x) (toLowerCase (trim au)))
                                          (arr_field b ''authors'')) rows);
          rows = (case tag p of
                    None \<Rightarrow> rows
                  | Some tg \<Rightarrow>
                      if trim tg = [] then rows
                      else filter (\<lambda>b. list_ex (\<lambda>x. toLowerCase x = toLowerCase (trim tg))
                                          (arr_field b ''tags'')) rows);
          rows = (case beforePurchaseDate p of
                    None \<Rightarrow> rows
                  | Some d \<Rightarrow>
                      if d = [] then rows
                      else filter (\<lambda>b. case purchased b of None \<Rightarrow> False | Some pd \<Rightarrow> pd \<le> d) rows);
          rows = (case afterPurchaseDate p of
                    None \<Rightarrow> rows
                  | Some d \<Rightarrow>
                      if d = [] then rows
                      else filter (\<lambda>b. case purchased b of None \<Rightarrow> False | Some pd \<Rightarrow> d \<le> pd) rows);
          rows = sort_rows (comparator (sort_param p)) rows
      in \<lparr>total = length rows, items = take (limit p) (drop (offset p) rows)\<rparr>)"

text \<open>\<open>this.state.books.find((b) => b.id === id) || null\<close>, the id being a string.\<close>

definition get :: "store \<Rightarrow> string \<Rightarrow> book option" where
  "get s ident = find (\<lambda>b. b ''id'' = Some (JStr ident)) (books s)"

fun findIndex :: "('a \<Rightarrow> bool) \<Rightarrow> 'a list \<Rightarrow> nat option" where
  "findIndex P [] = None"
| "findIndex P (x # xs) = (if P x then Some 0 else map_option Suc (findIndex P xs))"

definition upsert :: "book \<Rightarrow> store \<Rightarrow> book \<times> store" where
  "upsert book s =
     (let s' = (case findIndex (\<lambda>b. b ''id'' = book ''id'') (books s) of
                  Some idx \<Rightarrow> s\<lparr>books := (books s)[idx := book]\<rparr>
                | None \<Rightarrow> s\<lparr>books := books s @ [book]\<rparr>)
      in (book, enqueueWrite s'))"


text \<open>
  \<open>(b.isbn13 || b.isbn10 || '').replace(/-/g, '').toUpperCase()\<close>, on string fields.
\<close>

definition isbnKey :: "book \<Rightarrow> string" where
  "isbnKey b =
     toUpperCase (filter (\<lambda>c. c \<noteq> CHR ''-'')
       (case js_or (b ''isbn13'') (js_or (b ''isbn10'') (Some (JStr []))) of
          Some (JStr s) \<Rightarrow> s
        | _ \<Rightarrow> []))"

text \<open>
  \<open>Store.importJson\<close>. \<open>byIsbn\<close> maps an ISBN key to the id of a record (a later
  record with the same key replaces an earlier one); the id is a property read and may
  be undefined. The loop state holds the records, the map, the two counters and whether
  \<open>Object.assign\<close> was reached with no target, which throws and ends the loop with
  the records changed so far. \<open>clock i\<close> is what \<open>new Date().toISOString()\<close> returns
  in the \<open>i\<close>-th iteration.
\<close>

record import_state =
  rows :: "book list"
  byIsbn :: "string \<rightharpoonup> json option"
  created :: nat
  updated :: nat
  threw :: bool



datatype error = TypeError


section \<open>The request handlers (src/server.js)\<close>

text \<open>
  A handler takes what it reads from its environment (the clock reading \<open>now\<close>, the
  identifier \<open>uuidv4()\<close> returns), the request and the store, and returns the response
  and the store. Bodies are JSON objects.
\<close>

datatype response =
    Ok book
  | Created book
  | NoContent
  | BadRequest string
  | NotFound
  | Conflict "json option"
  | Listed list_result
  | Imported nat nat
  | Threw error

fun status :: "response \<Rightarrow> nat" where
  "status (Ok b) = 200"
| "status (Created b) = 201"
| "status NoContent = 204"
| "status (BadRequest msg) = 400"
| "status NotFound = 404"
| "status (Conflict ident) = 409"
| "status (Listed r) = 200"
| "status (Imported c u) = 200"
| "status (Threw e) = 500"

definition get_book :: "string \<Rightarrow> store \<Rightarrow> response \<times> store" where
  "get_book ident s = (case get s ident of None \<Rightarrow> (NotFound, s) | Some item \<Rightarrow> (Ok item, s))"

definition post_book :: "formats \<Rightarrow> string \<Rightarrow> string \<Rightarrow> book \<Rightarrow> store \<Rightarrow> response \<times> store" where
  "post_book F now uuid body s =
     (let (valid, incoming) =
            validateNewBook F
              (body(''id'' \<mapsto> JStr uuid, ''createdAt'' \<mapsto> JStr now, ''updatedAt'' \<mapsto> JStr now))
      in if \<not> valid then (BadRequest ''Validation failed'', s)
         else
           let all = list_books \<lparr>q = None, author = None, tag = None, beforePurchaseDate = None,
                                  afterPurchaseDate = None, sort_param = Some ''title'',
                                  limit = 50000, offset = 0\<rparr> s;
               normalizedIncomingIsbn = isbnKey incoming
           in case (if normalizedIncomingIsbn \<noteq> []
                    then find (\<lambda>b. isbnKey b = normalizedIncomingIsbn) (items all)
                    else None) of
                Some dupe \<Rightarrow> (Conflict (dupe ''id''), s)
              | None \<Rightarrow> (let (saved, s') = upsert incoming s in (Created saved, s')))"

definition put_book :: "formats \<Rightarrow> string \<Rightarrow> string \<Rightarrow> book \<Rightarrow> store \<Rightarrow> response \<times> store" where
  "put_book F now ident body s =
     (case get s ident of
        None \<Rightarrow> (NotFound, s)
      | Some existing \<Rightarrow>
          let (valid, replacement) =
                validateNewBook F
                  (body(''id'' := existing ''id'', ''createdAt'' := existing ''createdAt'',
                        ''updatedAt'' \<mapsto> JStr now))
          in if \<not> valid then (BadRequest ''Validation failed'', s)
             else let (saved, s') = upsert replacement s in (Ok saved, s'))"

text \<open>
  \<open>{ ...existing, ...req.body, id: existing.id, updatedAt: now }\<close>, where \<open>req.body\<close>
  is the body as \<open>validatePatchBook\<close> has left it.
\<close>

definition patch_merge :: "formats \<Rightarrow> string \<Rightarrow> book \<Rightarrow> book \<Rightarrow> book" where
  "patch_merge F now existing body =
     (existing ++ snd (validatePatchBook F body))
       (''id'' := existing ''id'', ''updatedAt'' \<mapsto> JStr now)"

definition patch_book :: "formats \<Rightarrow> string \<Rightarrow> string \<Rightarrow> book \<Rightarrow> store \<Rightarrow> response \<times> store" where
  "patch_book F now ident body s =
     (case get s ident of
        None \<Rightarrow> (NotFound, s)
      | Some existing \<Rightarrow>
          if \<not> fst (validatePatchBook F body) then (BadRequest ''Validation failed'', s)
          else
            let (valid, merged) = validateNewBook F (patch_merge F now existing body)
            in if \<not> valid then (BadRequest ''Validation failed after merge'', s)
               else let (saved, s') = upsert merged s in (Ok saved, s'))"







section \<open>Notions used in the statements\<close>

text \<open>
  The list query in the words of the specification: the four filters as predicates on a
  record, the records that match in their stored order, the field and direction a sort
  parameter asks for, and the filtered and sorted result before pagination.
\<close>

definition matches_q :: "list_query \<Rightarrow> book \<Rightarrow> bool" where
  "matches_q p b =
     (case q p of None \<Rightarrow> True
      | Some qs \<Rightarrow> trim qs = [] \<or> str_includes (hay b) (toLowerCase (trim qs)))"

definition matches_author :: "list_query \<Rightarrow> book \<Rightarrow> bool" where
  "matches_author p b =
     (case author p of None \<Rightarrow> True
      | Some au \<Rightarrow> trim au = [] \<or>
          list_ex (\<lambda>x. str_includes (toLowerCase x) (toLowerCase (trim au))) (arr_field b ''authors''))"

definition matches_tag :: "list_query \<Rightarrow> book \<Rightarrow> bool" where
  "matches_tag p b =
     (case tag p of None \<Rightarrow> True
      | Some tg \<Rightarrow> trim tg = [] \<or>
          list_ex (\<lambda>x. toLowerCase x = toLowerCase (trim tg)) (arr_field b ''tags''))"

definition in_purchase_range :: "list_query \<Rightarrow> book \<Rightarrow> bool" where
  "in_purchase_range p b =
     ((case beforePurchaseDate p of None \<Rightarrow> True
       | Some d \<Rightarrow> d = [] \<or> (case purchased b of None \<Rightarrow> False | Some pd \<Rightarrow> pd \<le> d)) \<and>
      (case afterPurchaseDate p of None \<Rightarrow> True
       | Some d \<Rightarrow> d = [] \<or> (case purchased b of None \<Rightarrow> False | Some pd \<Rightarrow> d \<le> pd)))"

definition matching :: "list_query \<Rightarrow> book list \<Rightarrow> book list" where
  "matching p bs =
     filter (in_purchase_range p) (filter (matches_tag p) (filter (matches_author p)
       (filter (matches_q p) bs)))"



definition full_result :: "list_query \<Rightarrow> store \<Rightarrow> book list" where
  "full_result p s = sort_rows (comparator (sort_param p)) (matching p (books s))"











text \<open>
  The import in the words of the specification. An incoming record whose ISBN key is not
  empty and equals the key of a stored record is merged into the last such record (that
  record and the incoming one, the incoming fields overwriting, the id of the stored record
  kept, updatedAt set to the clock) and counted as updated; any other incoming record is
  appended and counted as created. \<open>import_sync\<close> is the invariant that ties the
  \<open>byIsbn\<close> map of the source to the records; \<open>isbn_raw\<close> is the ISBN string before
  it is normalized.
\<close>

fun last_index :: "('a \<Rightarrow> bool) \<Rightarrow> 'a list \<Rightarrow> nat option" where
  "last_index P [] = None"
| "last_index P (x # xs) =
     (case last_index P xs of
        Some j \<Rightarrow> Some (Suc j)
      | None \<Rightarrow> if P x then Some 0 else None)"




definition isbn_raw :: "book \<Rightarrow> string" where
  "isbn_raw b =
     (case js_or (b ''isbn13'') (js_or (b ''isbn10'') (Some (JStr []))) of
        Some (JStr s) \<Rightarrow> s
      | _ \<Rightarrow> [])"

section \<open>Example values\<close>

text \<open>
  A choice of the three formats, a stored record and a store, on which the statements
  below are evaluated.
\<close>

definition F0 :: formats where
  "F0 = \<lparr>fmt_date = (\<lambda>s. length s = 10), fmt_date_time = (\<lambda>s. length s = 24),
          fmt_uri = (\<lambda>s. s \<noteq> [])\<rparr>"

definition book1 :: book where
  "book1 = [''id'' \<mapsto> JStr ''b1'', ''title'' \<mapsto> JStr ''Dune'',
            ''createdAt'' \<mapsto> JStr ''2026-01-01T00:00:00.000Z'',
            ''updatedAt'' \<mapsto> JStr ''2026-01-01T00:00:00.000Z'']"

definition store1 :: store where
  "store1 = \<lparr>books = [book1], flushes = 1\<rparr>"

definition bk :: "string \<Rightarrow> string \<Rightarrow> book" where
  "bk ident t = [''id'' \<mapsto> JStr ident, ''title'' \<mapsto> JStr t,
                 ''createdAt'' \<mapsto> JStr ''2026-01-01T00:00:00.000Z'',
                 ''updatedAt'' \<mapsto> JStr ''2026-01-01T00:00:00.000Z'']"

definition shelf :: store where
  "shelf = \<lparr>books = [bk ''1'' ''G'', bk ''2'' ''B'', bk ''3'' ''F'', bk ''4'' ''A'',
                      bk ''5'' ''E'', bk ''6'' ''C'', bk ''7'' ''D''],
             flushes = 7\<rparr>"

definition by_title :: list_query where
  "by_title = \<lparr>q = None, author = None, tag = None, beforePurchaseDate = None,
                afterPurchaseDate = None, sort_param = Some ''title'', limit = 50, offset = 0\<rparr>"

definition dune :: book where
  "dune = [''title'' \<mapsto> JStr ''Dune'']"

definition dune_stored :: book where
  "dune_stored = [''title'' \<mapsto> JStr ''Dune'', ''id'' \<mapsto> JStr ''u1'',
                  ''createdAt'' \<mapsto> JStr ''2026-11-02T21:30:00.000Z'',
                  ''updatedAt'' \<mapsto> JStr ''2026-11-02T21:30:00.000Z'']"

definition shelved :: book where
  "shelved = [''title'' \<mapsto> JStr ''Dune'', ''shelf'' \<mapsto> JStr ''A3'']"

definition knuth :: book where
  "knuth = [''title'' \<mapsto> JStr ''The Art of Computer Programming, Vol. 1'',
            ''isbn13'' \<mapsto> JStr ''978-0201558029'']"

definition knuth_stored :: book where
  "knuth_stored = [''title'' \<mapsto> JStr ''The Art of Computer Programming, Vol. 1'',
                   ''isbn13'' \<mapsto> JStr ''978-0201558029'', ''id'' \<mapsto> JStr ''a1'',
                   ''createdAt'' \<mapsto> JStr ''2026-11-02T21:30:00.000Z'',
                   ''updatedAt'' \<mapsto> JStr ''2026-11-02T21:30:00.000Z'']"

definition knuth_again :: book where
  "knuth_again = [''title'' \<mapsto> JStr ''TAOCP, second copy'', ''isbn13'' \<mapsto> JStr ''9780201558029'']"

definition no_title :: book where
  "no_title = [''isbn13'' \<mapsto> JStr ''9780201558029'']"

definition sicp :: book where
  "sicp = [''title'' \<mapsto> JStr ''Structure and Interpretation of Computer Programs'',
           ''isbn13'' \<mapsto> JStr ''9780262510875'']"

definition hyphens_stored :: book where
  "hyphens_stored = [''title'' \<mapsto> JStr ''Blank'', ''isbn13'' \<mapsto> JStr ''-----------'',
                     ''id'' \<mapsto> JStr ''h1'',
                     ''createdAt'' \<mapsto> JStr ''2026-11-02T21:30:00.000Z'',
                     ''updatedAt'' \<mapsto> JStr ''2026-11-02T21:30:00.000Z'']"

definition hyphens_body :: book where
  "hyphens_body = [''title'' \<mapsto> JStr ''Other'', ''isbn13'' \<mapsto> JStr ''----------'']"

definition hyphens_store :: store where
  "hyphens_store = \<lparr>books = [hyphens_stored], flushes = 1\<rparr>"

definition crowded_store :: store where
  "crowded_store = \<lparr>books = replicate 50000 dune_stored @ [knuth_stored], flushes = 2\<rparr>"

definition knuth_store :: store where
  "knuth_store = \<lparr>books = [knuth_stored], flushes = 1\<rparr>"



















section \<open>Evaluation and basic facts\<close>


subsection \<open>Sorting and filtering\<close>

lemma length_insort_cmp: "length (insort_cmp cmp x xs) = Suc (length xs)"
  by (induction xs) auto

lemma mset_insort_cmp: "mset (insort_cmp cmp x xs) = add_mset x (mset xs)"
  by (induction xs) auto

lemma mset_sort_rows: "mset (sort_rows cmp xs) = mset xs"
  by (induction xs) (auto simp: sort_rows_def mset_insort_cmp)

lemma length_sort_rows: "length (sort_rows cmp xs) = length xs"
  using mset_sort_rows [of cmp xs] by (metis size_mset)

lemma set_sort_rows: "set (sort_rows cmp xs) = set xs"
  using mset_sort_rows [of cmp xs] by (metis set_mset_mset)

lemma distinct_sort_rows: "distinct (sort_rows cmp xs) = distinct xs"
  using mset_sort_rows [of cmp xs] by (metis mset_eq_imp_distinct_iff)






lemma filter_if: "(if c then xs else filter P xs) = filter (\<lambda>x. c \<or> P x) xs"
  by simp

lemma list_books_rows:
  "list_books p s =
     \<lparr>total = length (full_result p s),
      items = take (limit p) (drop (offset p) (full_result p s))\<rparr>"
proof -
  have 1: "(case q p of None \<Rightarrow> rs | Some qs \<Rightarrow> if trim qs = [] then rs
              else filter (\<lambda>b. str_includes (hay b) (toLowerCase (trim qs))) rs)
           = filter (matches_q p) rs" for rs
    by (cases "q p") (auto simp: matches_q_def intro: filter_cong)
  have 2: "(case author p of None \<Rightarrow> rs | Some au \<Rightarrow> if trim au = [] then rs
              else filter (\<lambda>b. list_ex (\<lambda>x. str_includes (toLowerCase x) (toLowerCase (trim au)))
                     (arr_field b ''authors'')) rs)
           = filter (matches_author p) rs" for rs
    by (cases "author p") (auto simp: matches_author_def intro: filter_cong)
  have 3: "(case tag p of None \<Rightarrow> rs | Some tg \<Rightarrow> if trim tg = [] then rs
              else filter (\<lambda>b. list_ex (\<lambda>x. toLowerCase x = toLowerCase (trim tg))
                     (arr_field b ''tags'')) rs)
           = filter (matches_tag p) rs" for rs
    by (cases "tag p") (auto simp: matches_tag_def intro: filter_cong)
  have 4: "(case afterPurchaseDate p of None \<Rightarrow> rs' | Some d \<Rightarrow> if d = [] then rs'
              else filter (\<lambda>b. case purchased b of None \<Rightarrow> False | Some pd \<Rightarrow> d \<le> pd) rs')
           = filter (in_purchase_range p) rs"
    if "rs' = (case beforePurchaseDate p of None \<Rightarrow> rs | Some d \<Rightarrow> if d = [] then rs
              else filter (\<lambda>b. case purchased b of None \<Rightarrow> False | Some pd \<Rightarrow> pd \<le> d) rs)"
    for rs rs'
    unfolding that
    by (cases "beforePurchaseDate p"; cases "afterPurchaseDate p")
       (auto simp: in_purchase_range_def intro: filter_cong)
  show ?thesis
    unfolding list_books_def Let_def 1 2 3 full_result_def matching_def
    by (simp add: 4)
qed

subsection \<open>The example shelf\<close>

lemma bk_id: "bk i t ''id'' = Some (JStr i)"
  by (simp add: bk_def)

lemma bk_title: "sort_value ''title'' (bk i t) = t"
  by (simp add: bk_def sort_value_def)

lemma distinct_shelf: "distinct (books shelf)"
proof -
  have "distinct (map (\<lambda>b. b ''id'') (books shelf))"
    by (simp add: shelf_def bk_id)
  then show ?thesis by (simp only: distinct_map)
qed

subsection \<open>The validators\<close>

lemma fields_ok_restrict:
  "list_all (field_ok F (m |` (fst ` set ps))) ps = list_all (field_ok F m) ps"
  by (auto simp: list_all_iff field_ok_def restrict_map_def split: option.splits)

lemma compile_snd: "snd (compile F sch m) = m |` set (map fst (properties sch))"
  by (simp add: compile_def Let_def)

lemma compile_fst:
  "fst (compile F sch m) \<longleftrightarrow>
     list_all (\<lambda>k. (m |` set (map fst (properties sch))) k \<noteq> None) (required sch) \<and>
     list_all (field_ok F m) (properties sch)"
  by (simp add: compile_def Let_def fields_ok_restrict)



lemma restrict_id_iff: "m |` K = m \<longleftrightarrow> dom m \<subseteq> K"
proof
  assume "m |` K = m"
  then have "dom (m |` K) = dom m" by simp
  then show "dom m \<subseteq> K" by auto
next
  assume "dom m \<subseteq> K"
  then show "m |` K = m"
    by (force simp: restrict_map_def fun_eq_iff domIff subset_iff)
qed









subsection \<open>Lookup and upsert\<close>




lemma find_update_first:
  "findIndex P xs = Some i \<Longrightarrow> P y \<Longrightarrow> find P (xs[i := y]) = Some y"
proof (induction xs arbitrary: i)
  case Nil
  then show ?case by simp
next
  case (Cons x xs)
  then show ?case by (cases "P x") auto
qed

lemma find_append_new:
  "findIndex P xs = None \<Longrightarrow> P y \<Longrightarrow> find P (xs @ [y]) = Some y"
  by (induction xs) (auto split: if_splits)

lemma get_upsert:
  assumes "m ''id'' = Some (JStr ident)"
  shows "get (snd (upsert m s)) ident = Some m"
proof (cases "findIndex (\<lambda>b. b ''id'' = m ''id'') (books s)")
  case None
  with assms find_append_new [of "\<lambda>b. b ''id'' = Some (JStr ident)" "books s" m]
  show ?thesis by (simp add: upsert_def get_def enqueueWrite_def)
next
  case (Some i)
  with assms find_update_first [of "\<lambda>b. b ''id'' = Some (JStr ident)" "books s" i m]
  show ?thesis by (simp add: upsert_def get_def enqueueWrite_def)
qed



subsection \<open>Every stored record has passed the full validator\<close>



lemma upsert_pair: "(case upsert m s of (saved, s') \<Rightarrow> f saved s') = f m (snd (upsert m s))"
  by (simp add: upsert_def Let_def)

lemma post_book_outcome:
  "(snd (post_book F now uuid body s) = s \<and>
      (status (fst (post_book F now uuid body s)) = 400 \<or>
       status (fst (post_book F now uuid body s)) = 409)) \<or>
   (\<exists>m. validateNewBook F (body(''id'' \<mapsto> JStr uuid, ''createdAt'' \<mapsto> JStr now,
                                   ''updatedAt'' \<mapsto> JStr now)) = (True, m) \<and>
        post_book F now uuid body s = (Created m, snd (upsert m s)))"
proof (cases "validateNewBook F (body(''id'' \<mapsto> JStr uuid, ''createdAt'' \<mapsto> JStr now,
                 ''updatedAt'' \<mapsto> JStr now))")
  case (Pair valid incoming)
  show ?thesis
  proof (cases valid)
    case False
    with Pair show ?thesis by (simp add: post_book_def)
  next
    case True
    with Pair show ?thesis
      by (subst (1 2 3 4) post_book_def) (simp add: Let_def upsert_pair split: option.split)
  qed
qed
















subsection \<open>The example record\<close>

lemma dune_stored_ok: "validateNewBook F0 dune_stored = (True, dune_stored)"
proof -
  have "dom dune_stored \<subseteq> set (map fst (properties bookSchema))"
    by (simp add: dune_stored_def bookSchema_def)
  then have "dune_stored |` set (map fst (properties bookSchema)) = dune_stored"
    by (simp only: restrict_id_iff)
  moreover have "fst (validateNewBook F0 dune_stored)"
    by (simp add: validateNewBook_def compile_fst)
       (simp add: bookSchema_def field_ok_def dune_stored_def F0_def)
  ultimately show ?thesis
    by (simp add: validateNewBook_def prod_eq_iff compile_snd)
qed


subsection \<open>What POST stores\<close>

lemma system_keys_known:
  "''id'' \<in> set (map fst (properties bookSchema))"
  "''createdAt'' \<in> set (map fst (properties bookSchema))"
  "''updatedAt'' \<in> set (map fst (properties bookSchema))"
  by (simp_all add: bookSchema_def)

lemma restrict_upd_known: "k \<in> K \<Longrightarrow> (m(k \<mapsto> v)) |` K = (m |` K)(k \<mapsto> v)"
  by (auto simp: fun_eq_iff restrict_map_def)

lemma validated_post_body:
  "snd (validateNewBook F (body(''id'' \<mapsto> JStr uuid, ''createdAt'' \<mapsto> JStr now,
                                ''updatedAt'' \<mapsto> JStr now)))
     = (body |` set (map fst (properties bookSchema)))
         (''id'' \<mapsto> JStr uuid, ''createdAt'' \<mapsto> JStr now, ''updatedAt'' \<mapsto> JStr now)"
  unfolding validateNewBook_def compile_snd
  by (simp only: restrict_upd_known system_keys_known)

lemma shelved_post:
  "post_book F0 ''2026-11-02T21:30:00.000Z'' ''u1'' shelved empty_store
     = (Created dune_stored, \<lparr>books = [dune_stored], flushes = 1\<rparr>)"
proof -
  have b: "snd (validateNewBook F0 (shelved(''id'' \<mapsto> JStr ''u1'',
              ''createdAt'' \<mapsto> JStr ''2026-11-02T21:30:00.000Z'',
              ''updatedAt'' \<mapsto> JStr ''2026-11-02T21:30:00.000Z''))) = dune_stored"
    unfolding validated_post_body
    by (auto simp: fun_eq_iff restrict_map_def shelved_def dune_stored_def bookSchema_def)
  have v: "fst (validateNewBook F0 (shelved(''id'' \<mapsto> JStr ''u1'',
              ''createdAt'' \<mapsto> JStr ''2026-11-02T21:30:00.000Z'',
              ''updatedAt'' \<mapsto> JStr ''2026-11-02T21:30:00.000Z'')))"
    by (simp add: validateNewBook_def compile_fst)
       (simp add: bookSchema_def field_ok_def shelved_def F0_def)
  have k: "isbnKey dune_stored = []"
    by (simp add: isbnKey_def dune_stored_def js_or_def toUpperCase_def)
  from b v have "validateNewBook F0 (shelved(''id'' \<mapsto> JStr ''u1'',
              ''createdAt'' \<mapsto> JStr ''2026-11-02T21:30:00.000Z'',
              ''updatedAt'' \<mapsto> JStr ''2026-11-02T21:30:00.000Z'')) = (True, dune_stored)"
    by (simp add: prod_eq_iff)
  then show ?thesis
    by (simp add: post_book_def k upsert_def enqueueWrite_def empty_store_def)
qed

subsection \<open>The duplicate scan of POST\<close>

lemma isbnKey_cong:
  "m ''isbn13'' = m' ''isbn13'' \<Longrightarrow> m ''isbn10'' = m' ''isbn10'' \<Longrightarrow> isbnKey m = isbnKey m'"
  by (simp add: isbnKey_def)

lemma isbn_keys_known:
  "''isbn13'' \<in> set (map fst (properties bookSchema))"
  "''isbn10'' \<in> set (map fst (properties bookSchema))"
  by (simp_all add: bookSchema_def)

lemma isbnKey_validated_post:
  "isbnKey (snd (validateNewBook F (body(''id'' \<mapsto> JStr uuid, ''createdAt'' \<mapsto> JStr now,
                                          ''updatedAt'' \<mapsto> JStr now)))) = isbnKey body"
  unfolding validated_post_body
  by (rule isbnKey_cong) (simp_all add: restrict_map_def isbn_keys_known del: set_map)

lemma post_list_items:
  "items (list_books \<lparr>q = None, author = None, tag = None, beforePurchaseDate = None,
                      afterPurchaseDate = None, sort_param = Some ''title'',
                      limit = 50000, offset = 0\<rparr> s)
     = take 50000 (sort_rows (compare ''title'' True) (books s))"
  by (simp add: list_books_def comparator_def sortMap_def Let_def)

lemma find_sort_rows_None:
  "find P (sort_rows cmp xs) = None \<longleftrightarrow> (\<forall>x\<in>set xs. \<not> P x)"
  by (auto simp: find_None_iff set_sort_rows)

lemma post_book_valid:
  assumes "fst (validateNewBook F (body(''id'' \<mapsto> JStr uuid, ''createdAt'' \<mapsto> JStr now,
                                        ''updatedAt'' \<mapsto> JStr now)))"
  shows "\<exists>incoming. incoming ''id'' = Some (JStr uuid) \<and>
           post_book F now uuid body s =
             (case (if isbnKey body \<noteq> []
                    then find (\<lambda>b. isbnKey b = isbnKey body)
                           (take 50000 (sort_rows (compare ''title'' True) (books s)))
                    else None) of
                Some dupe \<Rightarrow> (Conflict (dupe ''id''), s)
              | None \<Rightarrow> (Created incoming, snd (upsert incoming s)))"
proof -
  let ?X = "body(''id'' \<mapsto> JStr uuid, ''createdAt'' \<mapsto> JStr now, ''updatedAt'' \<mapsto> JStr now)"
  obtain incoming where v: "validateNewBook F ?X = (True, incoming)"
    using assms by (cases "validateNewBook F ?X") auto
  then have key: "isbnKey incoming = isbnKey body"
    using isbnKey_validated_post [of F body uuid now] by simp
  have idk: "incoming ''id'' = Some (JStr uuid)"
    using v validated_post_body [of F body uuid now] by simp
  have "post_book F now uuid body s =
      (case (if isbnKey body \<noteq> []
             then find (\<lambda>b. isbnKey b = isbnKey body)
                    (take 50000 (sort_rows (compare ''title'' True) (books s)))
             else None) of
         Some dupe \<Rightarrow> (Conflict (dupe ''id''), s)
       | None \<Rightarrow> (Created incoming, snd (upsert incoming s)))"
    by (simp add: post_book_def v key post_list_items upsert_pair Let_def split: option.split)
  with idk show ?thesis by blast
qed

lemma post_book_invalid:
  assumes "\<not> fst (validateNewBook F (body(''id'' \<mapsto> JStr uuid, ''createdAt'' \<mapsto> JStr now,
                                          ''updatedAt'' \<mapsto> JStr now)))"
  shows "post_book F now uuid body s = (BadRequest ''Validation failed'', s)"
  using assms
  by (cases "validateNewBook F (body(''id'' \<mapsto> JStr uuid, ''createdAt'' \<mapsto> JStr now,
                                     ''updatedAt'' \<mapsto> JStr now))")
     (simp add: post_book_def)

lemmas key_eval = isbnKey_def js_or_def toUpperCase_def upper_char_def lower_letters_def
  upper_letters_def

lemma knuth_keys:
  "isbnKey knuth_stored = ''9780201558029''" "isbnKey knuth_again = ''9780201558029''"
  "isbnKey no_title = ''9780201558029''" "isbnKey sicp = ''9780262510875''"
  by (simp_all add: key_eval knuth_stored_def knuth_again_def no_title_def sicp_def)

lemma knuth_bodies_valid:
  "fst (validateNewBook F0 (knuth_again(''id'' \<mapsto> JStr ''a2'',
          ''createdAt'' \<mapsto> JStr ''2026-11-03T08:00:00.000Z'',
          ''updatedAt'' \<mapsto> JStr ''2026-11-03T08:00:00.000Z'')))"
  "fst (validateNewBook F0 (sicp(''id'' \<mapsto> JStr ''a2'',
          ''createdAt'' \<mapsto> JStr ''2026-11-03T08:00:00.000Z'',
          ''updatedAt'' \<mapsto> JStr ''2026-11-03T08:00:00.000Z'')))"
  "\<not> fst (validateNewBook F0 (no_title(''id'' \<mapsto> JStr ''a2'',
          ''createdAt'' \<mapsto> JStr ''2026-11-03T08:00:00.000Z'',
          ''updatedAt'' \<mapsto> JStr ''2026-11-03T08:00:00.000Z'')))"
  by (simp_all add: validateNewBook_def compile_def bookSchema_def field_ok_def restrict_map_def
      F0_def knuth_again_def sicp_def no_title_def isbn13_pattern_def digits_hyphens10_def
      is_digit_def)

lemma knuth_posted:
  "post_book F0 ''2026-11-02T21:30:00.000Z'' ''a1'' knuth empty_store
     = (Created knuth_stored, knuth_store)"
proof -
  let ?X = "knuth(''id'' \<mapsto> JStr ''a1'', ''createdAt'' \<mapsto> JStr ''2026-11-02T21:30:00.000Z'',
                  ''updatedAt'' \<mapsto> JStr ''2026-11-02T21:30:00.000Z'')"
  have x: "?X = knuth_stored"
    by (simp add: knuth_def knuth_stored_def)
  have "dom knuth_stored \<subseteq> set (map fst (properties bookSchema))"
    by (simp add: knuth_stored_def bookSchema_def)
  then have "snd (validateNewBook F0 knuth_stored) = knuth_stored"
    by (simp only: validateNewBook_def compile_snd restrict_id_iff)
  moreover have "fst (validateNewBook F0 knuth_stored)"
    by (simp add: validateNewBook_def compile_fst)
       (simp add: bookSchema_def field_ok_def knuth_stored_def F0_def isbn13_pattern_def
          digits_hyphens10_def is_digit_def)
  ultimately have v: "validateNewBook F0 knuth_stored = (True, knuth_stored)"
    by (simp add: prod_eq_iff)
  show ?thesis
    by (simp add: post_book_def x v knuth_keys list_books_def Let_def sort_rows_def
        empty_store_def upsert_def enqueueWrite_def knuth_store_def)
qed

lemma sort_rows_replicate_snoc:
  assumes "cmp a z \<le> 0" "cmp a a \<le> 0"
  shows "sort_rows cmp (replicate n a @ [z]) = replicate n a @ [z]"
proof (induction n)
  case 0
  show ?case by (simp add: sort_rows_def)
next
  case (Suc n)
  have "sort_rows cmp (replicate (Suc n) a @ [z]) = insort_cmp cmp a (sort_rows cmp (replicate n a @ [z]))"
    by (simp add: sort_rows_def)
  also have "\<dots> = insort_cmp cmp a (replicate n a @ [z])"
    by (simp only: Suc)
  also have "\<dots> = a # replicate n a @ [z]"
    using assms by (cases n) simp_all
  finally show ?case by simp
qed

lemma hyphens_keys: "isbnKey hyphens_body = []" "isbnKey hyphens_stored = []"
  by (simp_all add: key_eval hyphens_body_def hyphens_stored_def)

lemma hyphens_body_valid:
  "fst (validateNewBook F0 (hyphens_body(''id'' \<mapsto> JStr ''a2'',
          ''createdAt'' \<mapsto> JStr ''2026-11-03T08:00:00.000Z'',
          ''updatedAt'' \<mapsto> JStr ''2026-11-03T08:00:00.000Z'')))"
  by (simp add: validateNewBook_def compile_def bookSchema_def field_ok_def restrict_map_def
      F0_def hyphens_body_def isbn13_pattern_def digits_hyphens10_def is_digit_def)

lemma crowded_scan:
  "find (\<lambda>b. isbnKey b = isbnKey knuth_again)
     (take 50000 (sort_rows (compare ''title'' True) (books crowded_store))) = None"
proof -
  have "compare ''title'' True dune_stored knuth_stored \<le> 0"
       "compare ''title'' True dune_stored dune_stored \<le> 0"
    by (simp_all add: compare_def sort_value_def dune_stored_def knuth_stored_def)
  then have "sort_rows (compare ''title'' True) (books crowded_store)
      = replicate 50000 dune_stored @ [knuth_stored]"
    unfolding crowded_store_def by (simp add: sort_rows_replicate_snoc)
  moreover have "isbnKey dune_stored \<noteq> isbnKey knuth_again"
    by (simp add: knuth_keys) (simp add: key_eval dune_stored_def)
  ultimately show ?thesis
    by (simp add: find_None_iff)
qed

subsection \<open>What the handlers store under the system fields\<close>


lemma partial_no_createdAt:
  "snd (validatePatchBook F body) ''createdAt'' = None"
  by (simp add: validatePatchBook_def compile_snd partialBookSchema_def bookSchema_def restrict_map_def)





subsection \<open>Ids of stored records\<close>







subsection \<open>Creation and update times\<close>














lemma createdAt_schema:
  "(''createdAt'', p) \<in> set (properties bookSchema) \<Longrightarrow> p = FormatS FDateTime"
  by (simp add: bookSchema_def)









subsection \<open>Evaluations of PUT, PATCH and import\<close>







subsection \<open>The last record with a given key\<close>

lemma last_index_None: "last_index P xs = None \<longleftrightarrow> (\<forall>x\<in>set xs. \<not> P x)"
  by (induction xs) (auto split: option.splits)





subsection \<open>The ISBN key of a merged record\<close>


lemma isbn_raw_falsy13:
  "\<not> truthy (b ''isbn13'') \<Longrightarrow>
     isbn_raw b = (case js_or (b ''isbn10'') (Some (JStr [])) of Some (JStr s) \<Rightarrow> s | _ \<Rightarrow> [])"
  by (simp add: isbn_raw_def js_or_def)









subsection \<open>The import loop against its specification\<close>










subsection \<open>Evaluations of the import\<close>





subsection \<open>A body the patch validator rejects\<close>

lemma patch_rejected_merge_invalid:
  assumes "\<not> fst (validatePatchBook F body)"
  shows "\<not> fst (validateNewBook F (patch_merge F now B body))"
proof -
  let ?Kp = "set (map fst (properties partialBookSchema))"
  from assms have "\<not> list_all (field_ok F body) (properties partialBookSchema)"
    by (simp add: validatePatchBook_def compile_fst) (simp add: partialBookSchema_def)
  then obtain k p where kp: "(k, p) \<in> set (properties partialBookSchema)"
      and bad: "\<not> field_ok F body (k, p)"
    by (auto simp: list_all_iff)
  from kp have full: "(k, p) \<in> set (properties bookSchema)"
    and ne: "k \<noteq> ''id''" "k \<noteq> ''updatedAt''"
    by (auto simp: partialBookSchema_def)
  from bad obtain v where v: "body k = Some v" "\<not> check F p v"
    by (auto simp: field_ok_def split: option.splits)
  from kp have "k \<in> ?Kp" by force
  then have "snd (validatePatchBook F body) k = body k"
    by (simp add: validatePatchBook_def compile_snd restrict_map_def del: set_map)
  with v(1) ne have "patch_merge F now B body k = Some v"
    by (simp add: patch_merge_def map_add_def)
  with v(2) have "\<not> field_ok F (patch_merge F now B body) (k, p)"
    by (simp add: field_ok_def)
  with full have "\<not> list_all (field_ok F (patch_merge F now B body)) (properties bookSchema)"
    by (auto simp: list_all_iff)
  then show ?thesis
    by (simp add: validateNewBook_def compile_fst)
qed

lemma verdict_cong:
  assumes "\<And>k. k \<in> set (map fst (properties sch)) \<Longrightarrow> m1 k = m2 k"
  shows "fst (compile F sch m1) = fst (compile F sch m2)"
proof -
  have "m1 |` set (map fst (properties sch)) = m2 |` set (map fst (properties sch))"
    using assms by (auto simp: restrict_map_def fun_eq_iff)
  then show ?thesis by (simp add: compile_def Let_def)
qed

lemma partial_keys:
  "k \<in> set (map fst (properties bookSchema)) \<Longrightarrow> k \<noteq> ''id'' \<Longrightarrow> k \<noteq> ''createdAt'' \<Longrightarrow>
     k \<noteq> ''updatedAt'' \<Longrightarrow> k \<in> set (map fst (properties partialBookSchema))"
  by (force simp: partialBookSchema_def)

lemma patch_merge_literal:
  assumes "body ''createdAt'' = None"
  shows "fst (validateNewBook F ((B ++ body)(''id'' := B ''id'', ''updatedAt'' \<mapsto> JStr now)))
           = fst (validateNewBook F (patch_merge F now B body))"
  unfolding validateNewBook_def
proof (rule verdict_cong)
  fix k assume k: "k \<in> set (map fst (properties bookSchema))"
  show "((B ++ body)(''id'' := B ''id'', ''updatedAt'' \<mapsto> JStr now)) k = patch_merge F now B body k"
  proof (cases "k = ''id'' \<or> k = ''updatedAt''")
    case True
    then show ?thesis by (auto simp: patch_merge_def)
  next
    case False
    show ?thesis
    proof (cases "k = ''createdAt''")
      case True
      with assms show ?thesis
        by (simp add: patch_merge_def map_add_def partial_no_createdAt)
    next
      case ne: False
      with False k have "k \<in> set (map fst (properties partialBookSchema))"
        by (intro partial_keys) simp_all
      then have "snd (validatePatchBook F body) k = body k"
        by (simp add: validatePatchBook_def compile_snd restrict_map_def del: set_map)
      with False show ?thesis
        by (simp add: patch_merge_def map_add_def)
    qed
  qed
qed

section \<open>Unknown ids on PUT and PATCH\<close>

text \<open>
  C10. A PUT or a PATCH to \<open>/api/books/{id}\<close> where no stored record has that id answers
  404 whatever the body is (the lookup comes before any validation, so a body that would
  fail validation gets 404 as well, not 400), and the store is left as it was.
\<close>

theorem put_patch_unknown_id:
  assumes "get s ident = None"
  shows "put_book F now ident body s = (NotFound, s) \<and>
         patch_book F now ident body s = (NotFound, s)"
  using assms by (simp add: put_book_def patch_book_def)

theorem put_patch_unknown_id_witness:
  "get store1 ''zz'' = None \<and>
   \<not> fst (validateNewBook F0 [''rating'' \<mapsto> JNum 6]) \<and>
   put_book F0 ''2026-11-02T21:30:00.000Z'' ''zz'' [''rating'' \<mapsto> JNum 6] store1
     = (NotFound, store1) \<and>
   patch_book F0 ''2026-11-02T21:30:00.000Z'' ''zz'' [''rating'' \<mapsto> JNum 6] store1
     = (NotFound, store1)"
proof -
  have g: "get store1 ''zz'' = None"
    by (simp add: get_def store1_def book1_def)
  have v: "\<not> fst (validateNewBook F0 [''rating'' \<mapsto> JNum 6])"
    by (simp add: validateNewBook_def compile_def bookSchema_def restrict_map_def)
  show ?thesis
    using g v
      put_patch_unknown_id [OF g, of F0 "''2026-11-02T21:30:00.000Z''" "[''rating'' \<mapsto> JNum 6]"]
    by simp
qed

section \<open>A PATCH that fails validation\<close>



section \<open>The list query\<close>


text \<open>
  C5. For a fixed collection and fixed filter and sort parameters, the page with limit 5
  and offset 0 and the page with limit 5 and offset 5 are the first five and the next
  five positions of the filtered and sorted result: their concatenation is its first ten
  elements (all of it when it has fewer), both calls return the same total, and when the
  records of the collection are pairwise different no record is on both pages.
\<close>

theorem list_pages_partition:
  "items (list_books (p\<lparr>limit := 5, offset := 0\<rparr>) s) = take 5 (full_result p s) \<and>
   items (list_books (p\<lparr>limit := 5, offset := 5\<rparr>) s) = take 5 (drop 5 (full_result p s)) \<and>
   items (list_books (p\<lparr>limit := 5, offset := 0\<rparr>) s) @
     items (list_books (p\<lparr>limit := 5, offset := 5\<rparr>) s) = take 10 (full_result p s) \<and>
   total (list_books (p\<lparr>limit := 5, offset := 0\<rparr>) s) = length (full_result p s) \<and>
   total (list_books (p\<lparr>limit := 5, offset := 5\<rparr>) s) = length (full_result p s) \<and>
   (distinct (books s) \<longrightarrow>
      set (items (list_books (p\<lparr>limit := 5, offset := 0\<rparr>) s)) \<inter>
      set (items (list_books (p\<lparr>limit := 5, offset := 5\<rparr>) s)) = {})"
proof -
  have full: "full_result (p\<lparr>limit := l, offset := k\<rparr>) s = full_result p s" for l k
    by (simp add: full_result_def matching_def matches_q_def matches_author_def matches_tag_def
        in_purchase_range_def)
  have cat: "take 5 xs @ take 5 (drop 5 xs) = take 10 xs" for xs :: "book list"
    using take_add [of 5 5 xs] by simp
  have disj: "set (take 5 (full_result p s)) \<inter> set (take 5 (drop 5 (full_result p s))) = {}"
    if "distinct (books s)"
  proof -
    have "distinct (full_result p s)"
      using that by (simp add: full_result_def distinct_sort_rows matching_def)
    then have "set (take 5 (full_result p s)) \<inter> set (drop 5 (full_result p s)) = {}"
      by (simp add: set_take_disj_set_drop_if_distinct)
    moreover have "set (take 5 (drop 5 (full_result p s))) \<subseteq> set (drop 5 (full_result p s))"
      by (rule set_take_subset)
    ultimately show ?thesis by blast
  qed
  show ?thesis
    by (simp add: list_books_rows full cat disj)
qed

theorem list_pages_partition_witness:
  "distinct (books shelf) \<and>
   items (list_books (by_title\<lparr>limit := 5, offset := 0\<rparr>) shelf)
     = [bk ''4'' ''A'', bk ''2'' ''B'', bk ''6'' ''C'', bk ''7'' ''D'', bk ''5'' ''E''] \<and>
   items (list_books (by_title\<lparr>limit := 5, offset := 5\<rparr>) shelf)
     = [bk ''3'' ''F'', bk ''1'' ''G''] \<and>
   total (list_books (by_title\<lparr>limit := 5, offset := 5\<rparr>) shelf) = 7 \<and>
   set (items (list_books (by_title\<lparr>limit := 5, offset := 0\<rparr>) shelf)) \<inter>
   set (items (list_books (by_title\<lparr>limit := 5, offset := 5\<rparr>) shelf)) = {}"
proof -
  have full: "full_result by_title shelf
      = [bk ''4'' ''A'', bk ''2'' ''B'', bk ''6'' ''C'', bk ''7'' ''D'', bk ''5'' ''E'',
         bk ''3'' ''F'', bk ''1'' ''G'']"
    by (simp add: full_result_def matching_def matches_q_def matches_author_def matches_tag_def
        in_purchase_range_def by_title_def shelf_def sort_rows_def comparator_def sortMap_def
        compare_def bk_title)
  note part = list_pages_partition [of by_title shelf]
  have disj: "set (items (list_books (by_title\<lparr>limit := 5, offset := 0\<rparr>) shelf)) \<inter>
      set (items (list_books (by_title\<lparr>limit := 5, offset := 5\<rparr>) shelf)) = {}"
    using part distinct_shelf by blast
  have pages: "items (list_books (by_title\<lparr>limit := 5, offset := 0\<rparr>) shelf)
        = [bk ''4'' ''A'', bk ''2'' ''B'', bk ''6'' ''C'', bk ''7'' ''D'', bk ''5'' ''E'']"
      "items (list_books (by_title\<lparr>limit := 5, offset := 5\<rparr>) shelf)
        = [bk ''3'' ''F'', bk ''1'' ''G'']"
      "total (list_books (by_title\<lparr>limit := 5, offset := 5\<rparr>) shelf) = 7"
    using part by (simp_all add: full)
  show ?thesis
    using distinct_shelf disj pages by blast
qed

section \<open>A PATCH with an empty body\<close>



section \<open>POST followed by GET\<close>

text \<open>
  C7, as the code has it. The validator is built with \<open>removeAdditional\<close>, so a payload
  with a property the schema does not name is accepted and stored without that property:
  the record is not the payload plus the three system fields. What holds: whenever POST
  answers 201 for a payload \<open>P\<close>, the created record is \<open>P\<close> restricted to the properties
  the book schema names, with id, createdAt and updatedAt as the server assigns them, and
  a GET of the returned id yields this record; when \<open>P\<close> has only properties the schema
  names, the record is \<open>P\<close> with the three system fields set.
\<close>

theorem post_then_get:
  assumes "fst (post_book F now uuid P s) = Created saved"
  shows "saved = (P |` set (map fst (properties bookSchema)))
                   (''id'' \<mapsto> JStr uuid, ''createdAt'' \<mapsto> JStr now, ''updatedAt'' \<mapsto> JStr now) \<and>
         get_book uuid (snd (post_book F now uuid P s)) = (Ok saved, snd (post_book F now uuid P s)) \<and>
         (dom P \<subseteq> set (map fst (properties bookSchema)) \<longrightarrow>
            saved = P(''id'' \<mapsto> JStr uuid, ''createdAt'' \<mapsto> JStr now, ''updatedAt'' \<mapsto> JStr now))"
proof -
  let ?X = "P(''id'' \<mapsto> JStr uuid, ''createdAt'' \<mapsto> JStr now, ''updatedAt'' \<mapsto> JStr now)"
  from post_book_outcome [of F now uuid P s] assms
  obtain m where m: "validateNewBook F ?X = (True, m)"
      "post_book F now uuid P s = (Created m, snd (upsert m s))"
    by auto
  from m(2) assms have sm: "saved = m" by simp
  from m(1) validated_post_body [of F P uuid now]
  have eq: "m = (P |` set (map fst (properties bookSchema)))
                   (''id'' \<mapsto> JStr uuid, ''createdAt'' \<mapsto> JStr now, ''updatedAt'' \<mapsto> JStr now)"
    by simp
  then have "m ''id'' = Some (JStr uuid)" by simp
  with get_upsert [of m uuid s] have "get (snd (post_book F now uuid P s)) uuid = Some m"
    by (simp add: m(2))
  then have g: "get_book uuid (snd (post_book F now uuid P s)) = (Ok m, snd (post_book F now uuid P s))"
    by (simp add: get_book_def)
  have "dom P \<subseteq> set (map fst (properties bookSchema)) \<Longrightarrow> m = ?X"
    unfolding eq by (simp only: restrict_id_iff [THEN iffD2])
  with sm eq g show ?thesis by blast
qed

theorem post_then_get_counterexample:
  "status (fst (post_book F0 ''2026-11-02T21:30:00.000Z'' ''u1'' shelved empty_store)) = 201 \<and>
   get (snd (post_book F0 ''2026-11-02T21:30:00.000Z'' ''u1'' shelved empty_store)) ''u1''
     = Some dune_stored \<and>
   dune_stored ''shelf'' = None \<and>
   shelved ''shelf'' = Some (JStr ''A3'') \<and>
   dune_stored \<noteq> shelved(''id'' \<mapsto> JStr ''u1'', ''createdAt'' \<mapsto> JStr ''2026-11-02T21:30:00.000Z'',
                           ''updatedAt'' \<mapsto> JStr ''2026-11-02T21:30:00.000Z'')"
proof -
  have 1: "dune_stored ''shelf'' = None" by (simp add: dune_stored_def)
  have 2: "shelved ''shelf'' = Some (JStr ''A3'')" by (simp add: shelved_def)
  have 3: "(shelved(''id'' \<mapsto> JStr ''u1'', ''createdAt'' \<mapsto> JStr ''2026-11-02T21:30:00.000Z'',
              ''updatedAt'' \<mapsto> JStr ''2026-11-02T21:30:00.000Z'')) ''shelf'' = Some (JStr ''A3'')"
    by (simp add: shelved_def)
  have 4: "dune_stored \<noteq> shelved(''id'' \<mapsto> JStr ''u1'',
              ''createdAt'' \<mapsto> JStr ''2026-11-02T21:30:00.000Z'',
              ''updatedAt'' \<mapsto> JStr ''2026-11-02T21:30:00.000Z'')"
    using 1 3 by (metis option.distinct(1))
  have 5: "get \<lparr>books = [dune_stored], flushes = 1\<rparr> ''u1'' = Some dune_stored"
    by (simp add: get_def dune_stored_def)
  show ?thesis using 1 2 4 5 by (simp add: shelved_post)
qed

theorem post_then_get_witness:
  "fst (post_book F0 ''2026-11-02T21:30:00.000Z'' ''u1'' dune empty_store) = Created dune_stored \<and>
   dom dune \<subseteq> set (map fst (properties bookSchema)) \<and>
   dune_stored = dune(''id'' \<mapsto> JStr ''u1'', ''createdAt'' \<mapsto> JStr ''2026-11-02T21:30:00.000Z'',
                      ''updatedAt'' \<mapsto> JStr ''2026-11-02T21:30:00.000Z'') \<and>
   get_book ''u1'' (snd (post_book F0 ''2026-11-02T21:30:00.000Z'' ''u1'' dune empty_store))
     = (Ok dune_stored, \<lparr>books = [dune_stored], flushes = 1\<rparr>)"
proof -
  have b: "dune(''id'' \<mapsto> JStr ''u1'', ''createdAt'' \<mapsto> JStr ''2026-11-02T21:30:00.000Z'',
           ''updatedAt'' \<mapsto> JStr ''2026-11-02T21:30:00.000Z'') = dune_stored"
    by (simp add: dune_def dune_stored_def)
  have k: "isbnKey dune_stored = []"
    by (simp add: isbnKey_def dune_stored_def js_or_def toUpperCase_def)
  have p: "post_book F0 ''2026-11-02T21:30:00.000Z'' ''u1'' dune empty_store
      = (Created dune_stored, \<lparr>books = [dune_stored], flushes = 1\<rparr>)"
    by (simp add: post_book_def b dune_stored_ok k upsert_def enqueueWrite_def empty_store_def)
  then have c: "fst (post_book F0 ''2026-11-02T21:30:00.000Z'' ''u1'' dune empty_store)
      = Created dune_stored" by simp
  have d: "dom dune \<subseteq> set (map fst (properties bookSchema))"
    by (simp add: dune_def bookSchema_def)
  from post_then_get [OF c] c d b show ?thesis
    by (simp add: p)
qed

section \<open>Duplicate ISBN on POST\<close>

text \<open>
  C3, as the code has it. The handler validates the body first, looks for a duplicate only
  when the normalized ISBN of the body is not empty, and scans the first 50000 records in
  title order. So a body that fails validation gets 400 even when its ISBN is stored, a
  body whose ISBN consists of hyphens is created although a stored record has the same
  (empty) normalized ISBN, and a duplicate beyond the first 50000 records is not seen.
  What holds: for a body that passes validation and whose normalized ISBN (isbn13, else
  isbn10, hyphens removed, upper case) is not empty, on a store of at most 50000 records:
  if some stored record has the same normalized ISBN, the response is 409 with existingId
  the id of the first such record in title order, and the store is unchanged; if none
  has, the response is 201 with the created record, which a lookup of its id then finds.
  The scenario of the specification is the evaluation that follows the theorem: after
  creating the book with isbn13 978-0201558029 under id a1, a POST with isbn13
  9780201558029 answers 409 with existingId a1.
\<close>

theorem post_isbn_conflict:
  assumes "fst (validateNewBook F (body(''id'' \<mapsto> JStr uuid, ''createdAt'' \<mapsto> JStr now,
                                        ''updatedAt'' \<mapsto> JStr now)))"
    and "isbnKey body \<noteq> []"
    and "length (books s) \<le> 50000"
  shows "((\<exists>b\<in>set (books s). isbnKey b = isbnKey body) \<longrightarrow>
            (\<exists>dupe\<in>set (books s). isbnKey dupe = isbnKey body \<and>
               find (\<lambda>b. isbnKey b = isbnKey body) (sort_rows (compare ''title'' True) (books s))
                 = Some dupe \<and>
               post_book F now uuid body s = (Conflict (dupe ''id''), s))) \<and>
         ((\<forall>b\<in>set (books s). isbnKey b \<noteq> isbnKey body) \<longrightarrow>
            (\<exists>saved. post_book F now uuid body s = (Created saved, snd (upsert saved s)) \<and>
               get (snd (post_book F now uuid body s)) uuid = Some saved))"
proof -
  let ?sorted = "sort_rows (compare ''title'' True) (books s)"
  have all: "take 50000 ?sorted = ?sorted"
    using assms(3) by (simp add: length_sort_rows)
  from post_book_valid [OF assms(1), of s] assms(2) obtain incoming
    where idk: "incoming ''id'' = Some (JStr uuid)"
      and post: "post_book F now uuid body s =
        (case find (\<lambda>b. isbnKey b = isbnKey body) ?sorted of
           Some dupe \<Rightarrow> (Conflict (dupe ''id''), s)
         | None \<Rightarrow> (Created incoming, snd (upsert incoming s)))"
    unfolding all by auto
  have 1: ?thesis if "\<exists>b\<in>set (books s). isbnKey b = isbnKey body"
  proof -
    from that have "find (\<lambda>b. isbnKey b = isbnKey body) ?sorted \<noteq> None"
      by (simp add: find_sort_rows_None)
    then obtain dupe where d: "find (\<lambda>b. isbnKey b = isbnKey body) ?sorted = Some dupe" by auto
    then have "dupe \<in> set (books s)" "isbnKey dupe = isbnKey body"
      by (auto simp: find_Some_iff set_sort_rows [symmetric, of "books s" "compare ''title'' True"])
    with d post that show ?thesis by auto
  qed
  have 2: ?thesis if "\<forall>b\<in>set (books s). isbnKey b \<noteq> isbnKey body"
  proof -
    from that have "find (\<lambda>b. isbnKey b = isbnKey body) ?sorted = None"
      by (simp add: find_sort_rows_None)
    with post have p: "post_book F now uuid body s = (Created incoming, snd (upsert incoming s))"
      by simp
    moreover from idk get_upsert [of incoming uuid s]
    have "get (snd (upsert incoming s)) uuid = Some incoming" by simp
    ultimately show ?thesis using that by auto
  qed
  from 1 2 show ?thesis by blast
qed

theorem post_isbn_conflict_witness:
  "post_book F0 ''2026-11-02T21:30:00.000Z'' ''a1'' knuth empty_store
     = (Created knuth_stored, knuth_store) \<and>
   length (books knuth_store) \<le> 50000 \<and>
   isbnKey knuth_stored = ''9780201558029'' \<and>
   isbnKey knuth_again = ''9780201558029'' \<and>
   post_book F0 ''2026-11-03T08:00:00.000Z'' ''a2'' knuth_again knuth_store
     = (Conflict (Some (JStr ''a1'')), knuth_store) \<and>
   isbnKey sicp = ''9780262510875'' \<and>
   status (fst (post_book F0 ''2026-11-03T08:00:00.000Z'' ''a2'' sicp knuth_store)) = 201"
proof -
  have len: "length (books knuth_store) \<le> 50000" by (simp add: knuth_store_def)
  have k1: "isbnKey knuth_again \<noteq> []" and k2: "isbnKey sicp \<noteq> []"
    by (simp_all add: knuth_keys)
  have ex: "\<exists>b\<in>set (books knuth_store). isbnKey b = isbnKey knuth_again"
    by (simp add: knuth_store_def knuth_keys)
  have nex: "\<forall>b\<in>set (books knuth_store). isbnKey b \<noteq> isbnKey sicp"
    by (simp add: knuth_store_def knuth_keys)
  from post_isbn_conflict [OF knuth_bodies_valid(1) k1 len] ex
  obtain dupe where "dupe \<in> set (books knuth_store)"
      "post_book F0 ''2026-11-03T08:00:00.000Z'' ''a2'' knuth_again knuth_store
         = (Conflict (dupe ''id''), knuth_store)"
    by blast
  then have c: "post_book F0 ''2026-11-03T08:00:00.000Z'' ''a2'' knuth_again knuth_store
         = (Conflict (Some (JStr ''a1'')), knuth_store)"
    by (simp add: knuth_store_def knuth_stored_def)
  from post_isbn_conflict [OF knuth_bodies_valid(2) k2 len] nex
  have "status (fst (post_book F0 ''2026-11-03T08:00:00.000Z'' ''a2'' sicp knuth_store)) = 201"
    by auto
  with c len show ?thesis
    by (simp add: knuth_posted knuth_keys)
qed

theorem post_isbn_conflict_counterexample:
  "knuth_stored \<in> set (books knuth_store) \<and>
   isbnKey no_title = isbnKey knuth_stored \<and>
   isbnKey no_title \<noteq> [] \<and>
   status (fst (post_book F0 ''2026-11-03T08:00:00.000Z'' ''a2'' no_title knuth_store)) = 400 \<and>
   hyphens_stored \<in> set (books hyphens_store) \<and>
   isbnKey hyphens_body = isbnKey hyphens_stored \<and>
   status (fst (post_book F0 ''2026-11-03T08:00:00.000Z'' ''a2'' hyphens_body hyphens_store)) = 201 \<and>
   knuth_stored \<in> set (books crowded_store) \<and>
   isbnKey knuth_again = isbnKey knuth_stored \<and>
   status (fst (post_book F0 ''2026-11-03T08:00:00.000Z'' ''a2'' knuth_again crowded_store)) = 201"
proof -
  have 1: "status (fst (post_book F0 ''2026-11-03T08:00:00.000Z'' ''a2'' no_title knuth_store)) = 400"
    using post_book_invalid [OF knuth_bodies_valid(3), of knuth_store] by simp
  have 2: "status (fst (post_book F0 ''2026-11-03T08:00:00.000Z'' ''a2'' hyphens_body hyphens_store)) = 201"
    using post_book_valid [OF hyphens_body_valid, of hyphens_store] by (auto simp: hyphens_keys)
  have 3: "status (fst (post_book F0 ''2026-11-03T08:00:00.000Z'' ''a2'' knuth_again crowded_store)) = 201"
    using post_book_valid [OF knuth_bodies_valid(1), of crowded_store]
    by (auto simp: crowded_scan [unfolded knuth_keys] knuth_keys)
  show ?thesis
    using 1 2 3 by (simp add: knuth_keys hyphens_keys knuth_store_def hyphens_store_def crowded_store_def)
qed

section \<open>Ids and timestamps\<close>




section \<open>Import with ISBN deduplication\<close>




end
